theory Spec2Isabelle
  imports Main
begin

section \<open>The offline emergency-card cache (lib/offlineCache)\<close>

text \<open>
  The module keeps the last fetched emergency card in one IndexedDB object store,
  keyed by a caller-chosen string. The embedding below follows the module function by
  function. What the module gets from its host (IndexedDB, promises, the wall clock,
  the locale) is made explicit:
  \<^item> a promise is modelled by the state in which it settles;
  \<^item> the host's answers during one call (is \<open>window.indexedDB\<close> there, does the open
    request fire \<open>onsuccess\<close> or \<open>onerror\<close>, what happens to the request of the
    transaction) are an argument of type \<open>env\<close>;
  \<^item> the module variable \<open>dbPromise\<close>, the database on disk, the clock read by
    \<open>Date.now()\<close> and the console are fields of the state \<open>world\<close>, which every
    operation takes and returns;
  \<^item> calls are sequential: one call has settled before the next one starts.
\<close>

subsection \<open>Data\<close>

text \<open>\<open>new Error(message)\<close>, or the \<open>DOMException\<close> (by name) that a request carries.\<close>

datatype error = Error string | DOMException string

text \<open>The settled state of a promise.\<close>

datatype 'r promise = Fulfilled 'r | Rejected error

text \<open>The \<open>IDBDatabase\<close> handle that the open request delivers.\<close>

datatype IDBDatabase = Connection

text \<open>\<open>type CachedData = { key: string; data: unknown; timestamp: number }\<close>\<close>

record 'a CachedData =
  key :: string
  data :: 'a
  timestamp :: int

text \<open>
  What the store does with the request of one transaction: the request fires
  \<open>onsuccess\<close>; or \<open>db.transaction\<close>, \<open>tx.objectStore\<close> or the request method throws
  synchronously (inside the promise executor); or the request fires \<open>onerror\<close>.
\<close>

datatype signal = Succeeds | Throws error | Fails error

record env =
  hasIndexedDB :: bool
  openError :: "error option"
  request :: signal

text \<open>
  \<open>dbPromise\<close> is the module variable (\<open>None\<close> is \<open>null\<close>). \<open>dbVersion\<close> is the version
  of the database \<open>PolicyVaultOffline\<close> on disk, 0 when it does not exist yet, and
  \<open>emergency\<close> the records of its object store \<open>emergency\<close> (\<open>None\<close> when the database
  has no such store). \<open>clock\<close> is the wall clock in milliseconds since the epoch, and
  \<open>console\<close> collects the calls of \<open>console.error\<close>.
\<close>

record 'a world =
  dbPromise :: "IDBDatabase promise option"
  dbVersion :: nat
  emergency :: "'a CachedData list option"
  clock :: int
  console :: "(string \<times> error) list"

definition DB_VERSION :: nat where
  "DB_VERSION = 1"

subsection \<open>The object store\<close>

text \<open>
  The store is created with \<open>keyPath: 'key'\<close>: the key of a record is its \<open>key\<close> field.
  \<open>put\<close> replaces the record that has the same key, \<open>get\<close> returns the record with the
  key or \<open>undefined\<close>, \<open>delete\<close> removes it and succeeds when there is none.
\<close>

definition store_put :: "'a CachedData \<Rightarrow> 'a CachedData list \<Rightarrow> 'a CachedData list" where
  "store_put entry rs = entry # filter (\<lambda>r. key r \<noteq> key entry) rs"

definition store_get :: "string \<Rightarrow> 'a CachedData list \<Rightarrow> 'a CachedData option" where
  "store_get k rs = find (\<lambda>r. key r = k) rs"

definition store_delete :: "string \<Rightarrow> 'a CachedData list \<Rightarrow> 'a CachedData list" where
  "store_delete k rs = filter (\<lambda>r. key r \<noteq> k) rs"

subsection \<open>openDB\<close>

text \<open>
  The handler of \<open>onupgradeneeded\<close>, which the open request runs before \<open>onsuccess\<close>
  when the database on disk is older than the requested version: it creates the object
  store unless the database has it, and the database gets the requested version.
\<close>

definition onupgradeneeded :: "'a world \<Rightarrow> 'a world" where
  "onupgradeneeded w =
     (if dbVersion w < DB_VERSION
      then w\<lparr>dbVersion := DB_VERSION,
              emergency := (case emergency w of None \<Rightarrow> Some [] | Some rs \<Rightarrow> Some rs)\<rparr>
      else w)"

text \<open>
  \<open>if (dbPromise) return dbPromise\<close>; otherwise the new promise is stored in \<open>dbPromise\<close>
  however it settles: rejected when \<open>window\<close> or \<open>window.indexedDB\<close> is missing,
  rejected with \<open>request.error\<close> when the open request fails, resolved with the
  connection otherwise.
\<close>

definition openDB :: "env \<Rightarrow> 'a world \<Rightarrow> IDBDatabase promise \<times> 'a world" where
  "openDB e w =
     (case dbPromise w of
        Some p \<Rightarrow> (p, w)
      | None \<Rightarrow>
          (if \<not> hasIndexedDB e then
             (Rejected (Error ''IndexedDB not available''),
              w\<lparr>dbPromise := Some (Rejected (Error ''IndexedDB not available''))\<rparr>)
           else
             (case openError e of
                Some err \<Rightarrow> (Rejected err, w\<lparr>dbPromise := Some (Rejected err)\<rparr>)
              | None \<Rightarrow>
                  (Fulfilled Connection,
                   (onupgradeneeded w)\<lparr>dbPromise := Some (Fulfilled Connection)\<rparr>))))"

subsection \<open>The three cache operations\<close>

text \<open>
  Each operation is \<open>try { const db = await openDB(); return new Promise(...) } catch
  (err) { console.error(...) }\<close>. A rejection of \<open>openDB()\<close> is thrown by the \<open>await\<close>
  inside the \<open>try\<close> and reaches the \<open>catch\<close>. The promise of the transaction is returned
  without \<open>await\<close>: the \<open>try\<close> block is left when it is returned, and the promise of the
  async function settles as that promise does. An exception thrown inside the executor
  rejects the promise being constructed.
\<close>

definition console_error :: "string \<Rightarrow> error \<Rightarrow> 'a world \<Rightarrow> 'a world" where
  "console_error msg err w = w\<lparr>console := console w @ [(msg, err)]\<rparr>"

text \<open>\<open>db.transaction(STORE_NAME, mode)\<close> throws when the database has no such store.\<close>

definition NotFoundError :: error where
  "NotFoundError = DOMException ''NotFoundError''"

definition cacheEmergencyData ::
  "env \<Rightarrow> string \<Rightarrow> 'a \<Rightarrow> 'a world \<Rightarrow> unit promise \<times> 'a world" where
  "cacheEmergencyData e k d w =
     (case openDB e w of
        (Rejected err, w1) \<Rightarrow>
          (Fulfilled (), console_error ''Failed to cache emergency data:'' err w1)
      | (Fulfilled db, w1) \<Rightarrow>
          (case emergency w1 of
             None \<Rightarrow> (Rejected NotFoundError, w1)
           | Some rs \<Rightarrow>
               (case request e of
                  Throws err \<Rightarrow> (Rejected err, w1)
                | Fails err \<Rightarrow> (Rejected err, w1)
                | Succeeds \<Rightarrow>
                    (Fulfilled (),
                     w1\<lparr>emergency :=
                          Some (store_put \<lparr>key = k, data = d, timestamp = clock w1\<rparr> rs)\<rparr>))))"

text \<open>The result is \<open>{ data, timestamp }\<close>, here a pair, or \<open>null\<close>, here \<open>None\<close>.\<close>

definition getCachedEmergencyData ::
  "env \<Rightarrow> string \<Rightarrow> 'a world \<Rightarrow> ('a \<times> int) option promise \<times> 'a world" where
  "getCachedEmergencyData e k w =
     (case openDB e w of
        (Rejected err, w1) \<Rightarrow>
          (Fulfilled None, console_error ''Failed to get cached emergency data:'' err w1)
      | (Fulfilled db, w1) \<Rightarrow>
          (case emergency w1 of
             None \<Rightarrow> (Rejected NotFoundError, w1)
           | Some rs \<Rightarrow>
               (case request e of
                  Throws err \<Rightarrow> (Rejected err, w1)
                | Fails err \<Rightarrow> (Rejected err, w1)
                | Succeeds \<Rightarrow>
                    (case store_get k rs of
                       Some result \<Rightarrow> (Fulfilled (Some (data result, timestamp result)), w1)
                     | None \<Rightarrow> (Fulfilled None, w1)))))"

definition clearCachedEmergencyData ::
  "env \<Rightarrow> string \<Rightarrow> 'a world \<Rightarrow> unit promise \<times> 'a world" where
  "clearCachedEmergencyData e k w =
     (case openDB e w of
        (Rejected err, w1) \<Rightarrow>
          (Fulfilled (), console_error ''Failed to clear cached emergency data:'' err w1)
      | (Fulfilled db, w1) \<Rightarrow>
          (case emergency w1 of
             None \<Rightarrow> (Rejected NotFoundError, w1)
           | Some rs \<Rightarrow>
               (case request e of
                  Throws err \<Rightarrow> (Rejected err, w1)
                | Fails err \<Rightarrow> (Rejected err, w1)
                | Succeeds \<Rightarrow> (Fulfilled (), w1\<lparr>emergency := Some (store_delete k rs)\<rparr>))))"

subsection \<open>formatCacheTimestamp\<close>

text \<open>
  Timestamps are whole milliseconds, so \<open>Math.floor(diffMs / n)\<close> is \<open>diffMs div n\<close>
  (\<open>div\<close> on \<open>int\<close> rounds towards minus infinity, as \<open>Math.floor\<close> does). A template
  literal prints a whole number in decimal, with a minus sign when it is negative.
\<close>

definition digit :: "nat \<Rightarrow> char" where
  "digit n = ''0123456789'' ! n"

fun decimal :: "nat \<Rightarrow> string" where
  "decimal n = (if n < 10 then [digit n] else decimal (n div 10) @ [digit (n mod 10)])"

declare decimal.simps [simp del]

definition String :: "int \<Rightarrow> string" where
  "String i = (if i < 0 then ''-'' @ decimal (nat (- i)) else decimal (nat i))"

text \<open>
  \<open>now\<close> is \<open>new Date().getTime()\<close>; \<open>toLocaleDateString\<close> stands for
  \<open>new Date(timestamp).toLocaleDateString()\<close>, which depends on the host's locale.
\<close>

definition formatCacheTimestamp :: "(int \<Rightarrow> string) \<Rightarrow> int \<Rightarrow> int \<Rightarrow> string" where
  "formatCacheTimestamp toLocaleDateString now ts =
     (let diffMs = now - ts;
          diffMins = diffMs div 60000;
          diffHours = diffMs div 3600000;
          diffDays = diffMs div 86400000
      in if diffMins < 1 then ''Just now''
         else if diffMins < 60 then
           String diffMins @ '' minute'' @ (if diffMins = 1 then '''' else ''s'') @ '' ago''
         else if diffHours < 24 then
           String diffHours @ '' hour'' @ (if diffHours = 1 then '''' else ''s'') @ '' ago''
         else if diffDays < 7 then
           String diffDays @ '' day'' @ (if diffDays = 1 then '''' else ''s'') @ '' ago''
         else toLocaleDateString ts)"

subsection \<open>Sequential executions\<close>

text \<open>
  A page load at time \<open>t\<close> on an origin that has no database yet: \<open>dbPromise\<close> is
  \<open>null\<close>, nothing is on disk.
\<close>

definition initial :: "int \<Rightarrow> 'a world" where
  "initial t = \<lparr>dbPromise = None, dbVersion = 0, emergency = None, clock = t, console = []\<rparr>"

text \<open>
  Time passes between calls, never backwards; a call itself is an instant, at which
  \<open>Date.now()\<close> reads \<open>clock\<close>.
\<close>

definition elapse :: "nat \<Rightarrow> 'a world \<Rightarrow> 'a world" where
  "elapse d w = w\<lparr>clock := clock w + int d\<rparr>"

text \<open>
  One event of a sequential execution: a call of one of the three operations, with the
  host's behaviour during it, or the passing of some milliseconds.
\<close>

datatype 'a event =
    Put env string 'a
  | Get env string
  | Delete env string
  | Tick nat

fun exec :: "'a event \<Rightarrow> 'a world \<Rightarrow> 'a world" where
  "exec (Put e k d) w = snd (cacheEmergencyData e k d w)"
| "exec (Get e k) w = snd (getCachedEmergencyData e k w)"
| "exec (Delete e k) w = snd (clearCachedEmergencyData e k w)"
| "exec (Tick d) w = elapse d w"

fun run :: "'a event list \<Rightarrow> 'a world \<Rightarrow> 'a world" where
  "run [] w = w"
| "run (ev # evs) w = run evs (exec ev w)"

text \<open>Does the event write the key?\<close>

fun writes :: "string \<Rightarrow> 'a event \<Rightarrow> bool" where
  "writes k (Put e k' d) = (k' = k)"
| "writes k _ = False"

text \<open>The records of the object store, and those stored under one key.\<close>

definition records :: "'a world \<Rightarrow> 'a CachedData list" where
  "records w = (case emergency w of None \<Rightarrow> [] | Some rs \<Rightarrow> rs)"

definition entries :: "string \<Rightarrow> 'a world \<Rightarrow> 'a CachedData list" where
  "entries k w = filter (\<lambda>r. key r = k) (records w)"

text \<open>
  The states the module can be in: a database that has been given a version has the
  object store (no other code creates or upgrades this database), and a connection is
  only held to a database that has it.
\<close>

definition provisioned :: "'a world \<Rightarrow> bool" where
  "provisioned w =
     ((emergency w = None \<longrightarrow> dbVersion w < DB_VERSION) \<and>
      (dbPromise w = Some (Fulfilled Connection) \<longrightarrow> emergency w \<noteq> None))"

text \<open>
  The same world with every stored key renamed, and the renaming that exchanges two
  keys: they are used to say that an operation treats one key as it treats another.
\<close>

definition rename :: "(string \<Rightarrow> string) \<Rightarrow> 'a world \<Rightarrow> 'a world" where
  "rename f w = w\<lparr>emergency := map_option (map (\<lambda>r. r\<lparr>key := f (key r)\<rparr>)) (emergency w)\<rparr>"

definition swap_keys :: "string \<Rightarrow> string \<Rightarrow> string \<Rightarrow> string" where
  "swap_keys a b s = (if s = a then b else if s = b then a else s)"

section \<open>Properties\<close>

subsection \<open>Opening the store\<close>

lemma openDB_memo: "dbPromise w = Some p \<Longrightarrow> openDB e w = (p, w)"
  by (simp add: openDB_def)

lemma openDB_dbPromise: "dbPromise (snd (openDB e w)) = Some (fst (openDB e w))"
  by (simp add: openDB_def split: option.splits)

lemma openDB_clock: "clock (snd (openDB e w)) = clock w"
  by (simp add: openDB_def onupgradeneeded_def split: option.splits)

lemma openDB_console: "console (snd (openDB e w)) = console w"
  by (simp add: openDB_def onupgradeneeded_def split: option.splits)

lemma openDB_Rejected_disk:
  "fst (openDB e w) = Rejected err \<Longrightarrow>
   emergency (snd (openDB e w)) = emergency w \<and> dbVersion (snd (openDB e w)) = dbVersion w"
  by (auto simp: openDB_def split: option.splits if_splits)

lemma openDB_records: "records (snd (openDB e w)) = records w"
  by (simp add: openDB_def onupgradeneeded_def records_def split: option.splits)

lemma openDB_provisioned: "provisioned w \<Longrightarrow> provisioned (snd (openDB e w))"
  by (auto simp: openDB_def onupgradeneeded_def provisioned_def split: option.splits)

lemma provisioned_initial: "provisioned (initial t)"
  by (simp add: provisioned_def initial_def DB_VERSION_def)

lemma openDB_has_store:
  "provisioned w \<Longrightarrow> fst (openDB e w) = Fulfilled db \<Longrightarrow>
   emergency (snd (openDB e w)) = Some (records w)"
  by (cases db) (auto simp: openDB_def onupgradeneeded_def provisioned_def records_def
      split: option.splits if_splits)

subsection \<open>The operations when the store works\<close>

lemma cacheEmergencyData_works:
  assumes "provisioned w" "fst (openDB e w) = Fulfilled db" "request e = Succeeds"
  shows "cacheEmergencyData e k d w =
    (Fulfilled (),
     (snd (openDB e w))\<lparr>emergency :=
        Some (store_put \<lparr>key = k, data = d, timestamp = clock w\<rparr> (records w))\<rparr>)"
  using openDB_has_store [OF assms(1,2)] assms(2,3)
  by (simp add: cacheEmergencyData_def openDB_clock split_beta split: prod.splits)

lemma getCachedEmergencyData_works:
  assumes "provisioned w" "fst (openDB e w) = Fulfilled db" "request e = Succeeds"
  shows "getCachedEmergencyData e k w =
    (Fulfilled (map_option (\<lambda>r. (data r, timestamp r)) (store_get k (records w))),
     snd (openDB e w))"
  using openDB_has_store [OF assms(1,2)] assms(2,3)
  by (simp add: getCachedEmergencyData_def split_beta split: prod.splits option.splits)

lemma clearCachedEmergencyData_works:
  assumes "provisioned w" "fst (openDB e w) = Fulfilled db" "request e = Succeeds"
  shows "clearCachedEmergencyData e k w =
    (Fulfilled (), (snd (openDB e w))\<lparr>emergency := Some (store_delete k (records w))\<rparr>)"
  using openDB_has_store [OF assms(1,2)] assms(2,3)
  by (simp add: clearCachedEmergencyData_def split_beta split: prod.splits)

lemma elapse_simps:
  "dbPromise (elapse d w) = dbPromise w"
  "emergency (elapse d w) = emergency w"
  "dbVersion (elapse d w) = dbVersion w"
  "console (elapse d w) = console w"
  "clock (elapse d w) = clock w + int d"
  "records (elapse d w) = records w"
  "provisioned (elapse d w) = provisioned w"
  by (simp_all add: elapse_def records_def provisioned_def)

lemma records_emergency_update: "records (w\<lparr>emergency := Some rs\<rparr>) = rs"
  by (simp add: records_def)

lemma provisioned_emergency_update: "provisioned (w\<lparr>emergency := Some rs\<rparr>)"
  by (simp add: provisioned_def)

lemma store_get_put: "store_get (key r) (store_put r rs) = Some r"
  by (simp add: store_get_def store_put_def)

lemma store_get_put_other: "key r \<noteq> k \<Longrightarrow> store_get k (store_put r rs) = store_get k rs"
  by (induction rs) (simp_all add: store_get_def store_put_def)

lemma store_get_delete: "store_get k (store_delete k rs) = None"
  by (simp add: store_get_def store_delete_def find_None_iff)

lemma store_get_delete_other: "k' \<noteq> k \<Longrightarrow> store_get k (store_delete k' rs) = store_get k rs"
  by (induction rs) (simp_all add: store_get_def store_delete_def)

lemma store_get_None_iff: "store_get k rs = None \<longleftrightarrow> filter (\<lambda>r. key r = k) rs = []"
  by (auto simp: store_get_def find_None_iff filter_empty_conv)

lemma Put_world:
  assumes "provisioned w" "fst (openDB e w) = Fulfilled db" "request e = Succeeds"
  shows "dbPromise (snd (cacheEmergencyData e k d w)) = Some (Fulfilled db)"
    and "records (snd (cacheEmergencyData e k d w)) =
           store_put \<lparr>key = k, data = d, timestamp = clock w\<rparr> (records w)"
    and "provisioned (snd (cacheEmergencyData e k d w))"
    and "clock (snd (cacheEmergencyData e k d w)) = clock w"
  using assms(2)
  by (simp_all add: cacheEmergencyData_works [OF assms] openDB_dbPromise openDB_clock
      records_emergency_update provisioned_emergency_update)

subsection \<open>The operations when the store does not open\<close>

lemma console_error_simps:
  "dbPromise (console_error msg err w) = dbPromise w"
  "emergency (console_error msg err w) = emergency w"
  "dbVersion (console_error msg err w) = dbVersion w"
  "clock (console_error msg err w) = clock w"
  "console (console_error msg err w) = console w @ [(msg, err)]"
  "records (console_error msg err w) = records w"
  "provisioned (console_error msg err w) = provisioned w"
  by (simp_all add: console_error_def records_def provisioned_def)

lemma cacheEmergencyData_open_fails:
  "fst (openDB e w) = Rejected err \<Longrightarrow>
   cacheEmergencyData e k d w =
     (Fulfilled (), console_error ''Failed to cache emergency data:'' err (snd (openDB e w)))"
  by (cases "openDB e w") (simp add: cacheEmergencyData_def)

lemma getCachedEmergencyData_open_fails:
  "fst (openDB e w) = Rejected err \<Longrightarrow>
   getCachedEmergencyData e k w =
     (Fulfilled None,
      console_error ''Failed to get cached emergency data:'' err (snd (openDB e w)))"
  by (cases "openDB e w") (simp add: getCachedEmergencyData_def)

lemma clearCachedEmergencyData_open_fails:
  "fst (openDB e w) = Rejected err \<Longrightarrow>
   clearCachedEmergencyData e k w =
     (Fulfilled (),
      console_error ''Failed to clear cached emergency data:'' err (snd (openDB e w)))"
  by (cases "openDB e w") (simp add: clearCachedEmergencyData_def)

lemma openDB_unavailable:
  "dbPromise w = None \<Longrightarrow> \<not> hasIndexedDB e \<Longrightarrow>
   openDB e w =
     (Rejected (Error ''IndexedDB not available''),
      w\<lparr>dbPromise := Some (Rejected (Error ''IndexedDB not available''))\<rparr>)"
  by (simp add: openDB_def)

lemma exec_after_failed_open:
  assumes "dbPromise w = Some (Rejected err)"
  shows "dbPromise (exec ev w) = Some (Rejected err) \<and> emergency (exec ev w) = emergency w"
proof -
  have "fst (openDB e w) = Rejected err" and "snd (openDB e w) = w" for e
    using assms by (simp_all add: openDB_memo)
  then show ?thesis
    using assms
    by (cases ev)
      (simp_all add: cacheEmergencyData_open_fails getCachedEmergencyData_open_fails
        clearCachedEmergencyData_open_fails console_error_simps elapse_simps)
qed

lemma run_after_failed_open:
  "dbPromise w = Some (Rejected err) \<Longrightarrow>
   dbPromise (run evs w) = Some (Rejected err) \<and> emergency (run evs w) = emergency w"
proof (induction evs arbitrary: w)
  case Nil
  then show ?case by simp
next
  case (Cons ev evs)
  from exec_after_failed_open [OF Cons.prems, of ev]
  have "dbPromise (exec ev w) = Some (Rejected err)" and "emergency (exec ev w) = emergency w"
    by simp_all
  with Cons.IH [of "exec ev w"] show ?case by simp
qed

subsection \<open>A connection is kept\<close>

lemma exec_provisioned: "provisioned w \<Longrightarrow> provisioned (exec ev w)"
proof (cases ev)
  case (Put e k d)
  assume "provisioned w"
  then have "provisioned (snd (openDB e w))" by (rule openDB_provisioned)
  then show ?thesis
    using Put
    by (cases "openDB e w")
      (auto simp: cacheEmergencyData_def console_error_simps provisioned_emergency_update
        split: promise.splits option.splits signal.splits)
next
  case (Get e k)
  assume "provisioned w"
  then have "provisioned (snd (openDB e w))" by (rule openDB_provisioned)
  then show ?thesis
    using Get
    by (cases "openDB e w")
      (auto simp: getCachedEmergencyData_def console_error_simps
        split: promise.splits option.splits signal.splits)
next
  case (Delete e k)
  assume "provisioned w"
  then have "provisioned (snd (openDB e w))" by (rule openDB_provisioned)
  then show ?thesis
    using Delete
    by (cases "openDB e w")
      (auto simp: clearCachedEmergencyData_def console_error_simps provisioned_emergency_update
        split: promise.splits option.splits signal.splits)
next
  case (Tick d)
  assume "provisioned w"
  then show ?thesis using Tick by (simp add: elapse_simps)
qed

lemma run_provisioned: "provisioned w \<Longrightarrow> provisioned (run evs w)"
  by (induction evs arbitrary: w) (simp_all add: exec_provisioned)

lemma exec_dbPromise: "dbPromise w = Some q \<Longrightarrow> dbPromise (exec ev w) = Some q"
  by (cases ev)
    (auto simp: cacheEmergencyData_def getCachedEmergencyData_def clearCachedEmergencyData_def
      openDB_memo console_error_simps elapse_simps
      split: promise.splits option.splits signal.splits)

lemma run_dbPromise: "dbPromise w = Some q \<Longrightarrow> dbPromise (run evs w) = Some q"
  by (induction evs arbitrary: w) (simp_all add: exec_dbPromise)

lemma getCachedEmergencyData_connected:
  assumes "provisioned w" "dbPromise w = Some (Fulfilled db)" "request e = Succeeds"
  shows "getCachedEmergencyData e k w =
    (Fulfilled (map_option (\<lambda>r. (data r, timestamp r)) (store_get k (records w))), w)"
proof -
  have "openDB e w = (Fulfilled db, w)" by (simp add: openDB_memo assms(2))
  then show ?thesis
    using getCachedEmergencyData_works [OF assms(1) _ assms(3), of db k] by simp
qed

subsection \<open>What an event does to the records\<close>

lemma exec_records:
  "records (exec ev w) = records w \<or>
   (\<exists>e k d. ev = Put e k d \<and>
      records (exec ev w) = store_put \<lparr>key = k, data = d, timestamp = clock w\<rparr> (records w)) \<or>
   (\<exists>e k. ev = Delete e k \<and> records (exec ev w) = store_delete k (records w))"
proof (cases ev)
  case (Put e k d)
  show ?thesis
    using openDB_records [of e w] openDB_clock [of e w] unfolding Put
    by (cases "openDB e w")
      (auto simp: cacheEmergencyData_def console_error_simps records_def
        split: promise.splits option.splits signal.splits)
next
  case (Get e k)
  show ?thesis
    using openDB_records [of e w] unfolding Get
    by (cases "openDB e w")
      (auto simp: getCachedEmergencyData_def console_error_simps
        split: promise.splits option.splits signal.splits)
next
  case (Delete e k)
  show ?thesis
    using openDB_records [of e w] unfolding Delete
    by (cases "openDB e w")
      (auto simp: clearCachedEmergencyData_def console_error_simps records_def
        split: promise.splits option.splits signal.splits)
next
  case (Tick d)
  then show ?thesis by (simp add: elapse_simps)
qed

lemma distinct_store_put:
  "distinct (map key rs) \<Longrightarrow> distinct (map key (store_put r rs))"
  by (auto simp: store_put_def distinct_map_filter)

lemma distinct_store_delete:
  "distinct (map key rs) \<Longrightarrow> distinct (map key (store_delete k rs))"
  by (simp add: store_delete_def distinct_map_filter)

lemma exec_unique_keys:
  "distinct (map key (records w)) \<Longrightarrow> distinct (map key (records (exec ev w)))"
  using exec_records [of ev w]
  by (auto simp: distinct_store_put distinct_store_delete)

lemma run_unique_keys:
  "distinct (map key (records w)) \<Longrightarrow> distinct (map key (records (run evs w)))"
  by (induction evs arbitrary: w) (simp_all add: exec_unique_keys)

lemma unique_keys_entries:
  "distinct (map key rs) \<Longrightarrow> length (filter (\<lambda>r. key r = k) rs) \<le> Suc 0"
proof (induction rs)
  case Nil
  then show ?case by simp
next
  case (Cons a rs)
  show ?case
  proof (cases "key a = k")
    case True
    from Cons.prems have "key a \<notin> key ` set rs"
      by simp
    with True have "\<forall>x\<in>set rs. key x \<noteq> k"
      by blast
    then have "filter (\<lambda>r. key r = k) rs = []"
      by (simp add: filter_empty_conv)
    with True show ?thesis by simp
  next
    case False
    with Cons show ?thesis by simp
  qed
qed

lemma filter_store_put_same:
  "filter (\<lambda>r. key r = key x) (store_put x rs) = [x]"
  by (simp add: store_put_def filter_empty_conv)

lemma filter_store_put_other:
  "key x \<noteq> k \<Longrightarrow> filter (\<lambda>r. key r = k) (store_put x rs) = filter (\<lambda>r. key r = k) rs"
  by (induction rs) (simp_all add: store_put_def)

lemma filter_store_delete_same:
  "filter (\<lambda>r. key r = k) (store_delete k rs) = []"
  by (simp add: store_delete_def filter_empty_conv)

lemma set_store_delete: "set (store_delete k rs) \<subseteq> set rs"
  by (simp add: store_delete_def)

lemma store_delete_absent:
  "filter (\<lambda>r. key r = k) rs = [] \<Longrightarrow> store_delete k rs = rs"
  by (simp add: store_delete_def filter_empty_conv filter_id_conv)

lemma exec_entries_subset:
  assumes "\<not> writes k ev"
  shows "set (entries k (exec ev w)) \<subseteq> set (entries k w)"
proof -
  from exec_records [of ev w] consider
      (same) "records (exec ev w) = records w"
    | (put) e k' d where "ev = Put e k' d"
        "records (exec ev w) = store_put \<lparr>key = k', data = d, timestamp = clock w\<rparr> (records w)"
    | (delete) e k' where "ev = Delete e k'"
        "records (exec ev w) = store_delete k' (records w)"
    by blast
  then show ?thesis
  proof cases
    case same
    then show ?thesis by (simp add: entries_def)
  next
    case put
    with assms have "k' \<noteq> k" by simp
    then show ?thesis
      using filter_store_put_other [of "\<lparr>key = k', data = d, timestamp = clock w\<rparr>" k "records w"]
      by (simp add: entries_def put(2))
  next
    case delete
    then show ?thesis
      using set_store_delete [of k' "records w"] by (auto simp: entries_def)
  qed
qed

lemma run_entries_subset:
  "\<forall>ev\<in>set evs. \<not> writes k ev \<Longrightarrow> set (entries k (run evs w)) \<subseteq> set (entries k w)"
proof (induction evs arbitrary: w)
  case Nil
  then show ?case by simp
next
  case (Cons ev evs)
  then have "set (entries k (run evs (exec ev w))) \<subseteq> set (entries k (exec ev w))"
    by simp
  also have "\<dots> \<subseteq> set (entries k w)"
    using Cons.prems by (simp add: exec_entries_subset)
  finally show ?case by simp
qed

lemma Put_connected:
  assumes "provisioned w" "dbPromise w = Some (Fulfilled db)" "request e = Succeeds"
  shows "cacheEmergencyData e k d w =
    (Fulfilled (),
     w\<lparr>emergency := Some (store_put \<lparr>key = k, data = d, timestamp = clock w\<rparr> (records w))\<rparr>)"
proof -
  have "openDB e w = (Fulfilled db, w)" by (simp add: openDB_memo assms(2))
  then show ?thesis
    using cacheEmergencyData_works [OF assms(1) _ assms(3), of db k d] by simp
qed

lemma Get_after_Put:
  assumes "provisioned w" and "fst (openDB e1 w) = Fulfilled db"
    and "request e1 = Succeeds" and "request e2 = Succeeds"
  shows "fst (getCachedEmergencyData e2 k (elapse d (snd (cacheEmergencyData e1 k p w)))) =
           Fulfilled (Some (p, clock w))"
proof -
  let ?w1 = "snd (cacheEmergencyData e1 k p w)"
  note put = Put_world [OF assms(1,2,3), of k p]
  have "provisioned (elapse d ?w1)" and "dbPromise (elapse d ?w1) = Some (Fulfilled db)"
    by (simp_all add: elapse_simps put)
  from getCachedEmergencyData_connected [OF this assms(4), of k]
  show ?thesis
    using store_get_put [of "\<lparr>key = k, data = p, timestamp = clock w\<rparr>" "records w"]
    by (simp add: elapse_simps put(2))
qed

lemma clearCachedEmergencyData_world:
  assumes "provisioned w" "fst (openDB e w) = Fulfilled db" "request e = Succeeds"
  shows "dbPromise (snd (clearCachedEmergencyData e k w)) = Some (Fulfilled db)"
    and "records (snd (clearCachedEmergencyData e k w)) = store_delete k (records w)"
    and "provisioned (snd (clearCachedEmergencyData e k w))"
    and "clock (snd (clearCachedEmergencyData e k w)) = clock w"
  using assms(2)
  by (simp_all add: clearCachedEmergencyData_works [OF assms] openDB_dbPromise openDB_clock
      records_emergency_update provisioned_emergency_update)

lemma set_store_put: "set (store_put x rs) \<subseteq> insert x (set rs)"
  by (auto simp: store_put_def)

subsection \<open>Renaming keys\<close>

lemma rename_simps:
  "dbPromise (rename f w) = dbPromise w"
  "dbVersion (rename f w) = dbVersion w"
  "clock (rename f w) = clock w"
  "console (rename f w) = console w"
  "emergency (rename f w) = map_option (map (\<lambda>r. r\<lparr>key := f (key r)\<rparr>)) (emergency w)"
  by (simp_all add: rename_def)

lemma rename_console_error:
  "rename f (console_error msg err w) = console_error msg err (rename f w)"
  by (simp add: rename_def console_error_def)

lemma openDB_rename:
  "openDB e (rename f w) = (fst (openDB e w), rename f (snd (openDB e w)))"
  by (simp add: openDB_def onupgradeneeded_def rename_def split: option.splits)

lemma store_put_rename:
  "inj f \<Longrightarrow>
   store_put (x\<lparr>key := f (key x)\<rparr>) (map (\<lambda>r. r\<lparr>key := f (key r)\<rparr>) rs) =
     map (\<lambda>r. r\<lparr>key := f (key r)\<rparr>) (store_put x rs)"
  by (simp add: store_put_def filter_map comp_def inj_eq)

lemma store_delete_rename:
  "inj f \<Longrightarrow>
   store_delete (f k) (map (\<lambda>r. r\<lparr>key := f (key r)\<rparr>) rs) =
     map (\<lambda>r. r\<lparr>key := f (key r)\<rparr>) (store_delete k rs)"
  by (simp add: store_delete_def filter_map comp_def inj_eq)

lemma store_get_rename:
  "inj f \<Longrightarrow>
   store_get (f k) (map (\<lambda>r. r\<lparr>key := f (key r)\<rparr>) rs) =
     map_option (\<lambda>r. r\<lparr>key := f (key r)\<rparr>) (store_get k rs)"
  by (induction rs) (simp_all add: store_get_def inj_eq)

lemma cacheEmergencyData_rename:
  assumes "inj f"
  shows "cacheEmergencyData e (f k) d (rename f w) =
    (fst (cacheEmergencyData e k d w), rename f (snd (cacheEmergencyData e k d w)))"
proof (cases "openDB e w")
  case (Pair q w1)
  then have opened: "openDB e (rename f w) = (q, rename f w1)"
    by (simp add: openDB_rename)
  show ?thesis
  proof (cases q)
    case (Rejected err)
    then show ?thesis
      by (simp add: cacheEmergencyData_def Pair opened rename_console_error)
  next
    case (Fulfilled db)
    show ?thesis
    proof (cases "emergency w1")
      case None
      then show ?thesis
        by (simp add: cacheEmergencyData_def Pair opened Fulfilled rename_simps)
    next
      case (Some rs)
      have "(rename f w1)\<lparr>emergency :=
                Some (store_put \<lparr>key = f k, data = d, timestamp = clock w1\<rparr>
                        (map (\<lambda>r. r\<lparr>key := f (key r)\<rparr>) rs))\<rparr> =
            rename f (w1\<lparr>emergency :=
                Some (store_put \<lparr>key = k, data = d, timestamp = clock w1\<rparr> rs)\<rparr>)"
        using store_put_rename [OF assms, of "\<lparr>key = k, data = d, timestamp = clock w1\<rparr>" rs]
        by (simp add: rename_def)
      then show ?thesis
        by (cases "request e")
          (simp_all add: cacheEmergencyData_def Pair opened Fulfilled Some rename_simps)
    qed
  qed
qed

lemma getCachedEmergencyData_rename:
  assumes "inj f"
  shows "getCachedEmergencyData e (f k) (rename f w) =
    (fst (getCachedEmergencyData e k w), rename f (snd (getCachedEmergencyData e k w)))"
proof (cases "openDB e w")
  case (Pair q w1)
  then have opened: "openDB e (rename f w) = (q, rename f w1)"
    by (simp add: openDB_rename)
  show ?thesis
  proof (cases q)
    case (Rejected err)
    then show ?thesis
      by (simp add: getCachedEmergencyData_def Pair opened rename_console_error)
  next
    case (Fulfilled db)
    show ?thesis
    proof (cases "emergency w1")
      case None
      then show ?thesis
        by (simp add: getCachedEmergencyData_def Pair opened Fulfilled rename_simps)
    next
      case (Some rs)
      show ?thesis
        by (cases "request e"; cases "store_get k rs")
          (simp_all add: getCachedEmergencyData_def Pair opened Fulfilled Some rename_simps
            store_get_rename [OF assms])
    qed
  qed
qed

lemma clearCachedEmergencyData_rename:
  assumes "inj f"
  shows "clearCachedEmergencyData e (f k) (rename f w) =
    (fst (clearCachedEmergencyData e k w), rename f (snd (clearCachedEmergencyData e k w)))"
proof (cases "openDB e w")
  case (Pair q w1)
  then have opened: "openDB e (rename f w) = (q, rename f w1)"
    by (simp add: openDB_rename)
  show ?thesis
  proof (cases q)
    case (Rejected err)
    then show ?thesis
      by (simp add: clearCachedEmergencyData_def Pair opened rename_console_error)
  next
    case (Fulfilled db)
    show ?thesis
    proof (cases "emergency w1")
      case None
      then show ?thesis
        by (simp add: clearCachedEmergencyData_def Pair opened Fulfilled rename_simps)
    next
      case (Some rs)
      have "(rename f w1)\<lparr>emergency :=
                Some (store_delete (f k) (map (\<lambda>r. r\<lparr>key := f (key r)\<rparr>) rs))\<rparr> =
            rename f (w1\<lparr>emergency := Some (store_delete k rs)\<rparr>)"
        by (simp add: rename_def store_delete_rename [OF assms])
      then show ?thesis
        by (cases "request e")
          (simp_all add: clearCachedEmergencyData_def Pair opened Fulfilled Some rename_simps)
    qed
  qed
qed

lemma inj_swap_keys: "inj (swap_keys a b)"
  by (auto simp: inj_def swap_keys_def split: if_splits)

lemma swap_keys_right: "swap_keys a b b = a"
  by (simp add: swap_keys_def)

lemma cacheEmergencyData_outcome_key:
  "fst (cacheEmergencyData e k d w) = fst (cacheEmergencyData e k' d w)"
  by (cases "openDB e w")
    (simp add: cacheEmergencyData_def split: promise.splits option.splits signal.splits)

lemma clearCachedEmergencyData_outcome_key:
  "fst (clearCachedEmergencyData e k w) = fst (clearCachedEmergencyData e k' w)"
  by (cases "openDB e w")
    (simp add: clearCachedEmergencyData_def split: promise.splits option.splits signal.splits)

subsection \<open>Round trip\<close>

text \<open>
  C3: in a sequential execution where the store opens and both requests succeed,
  \<open>Put(k, p)\<close> reports success and a following \<open>Get(k)\<close>, any time \<open>d\<close> later, returns
  the payload \<open>p\<close> unchanged together with the timestamp \<open>t\<close> that \<open>Date.now()\<close> gave at
  the \<open>Put\<close>. With the time of the \<open>Put\<close> being \<open>clock w\<close> and the time of the \<open>Get\<close>
  the clock of the world it runs in, \<open>t\<close> is \<open>clock w\<close>, so that time of the \<open>Put\<close>
  \<open>\<le> t \<le>\<close> time of the \<open>Get\<close>.
\<close>

theorem put_get_roundtrip:
  assumes "provisioned w" and "fst (openDB e1 w) = Fulfilled db"
    and "request e1 = Succeeds" and "request e2 = Succeeds"
  shows "fst (cacheEmergencyData e1 k p w) = Fulfilled () \<and>
         fst (getCachedEmergencyData e2 k (elapse d (snd (cacheEmergencyData e1 k p w)))) =
           Fulfilled (Some (p, clock w)) \<and>
         clock w \<le> clock (elapse d (snd (cacheEmergencyData e1 k p w)))"
proof -
  let ?w1 = "snd (cacheEmergencyData e1 k p w)"
  note put = Put_world [OF assms(1,2,3), of k p]
  have open2: "fst (openDB e2 (elapse d ?w1)) = Fulfilled db"
    by (simp add: openDB_memo elapse_simps put(1))
  have prov2: "provisioned (elapse d ?w1)"
    by (simp add: elapse_simps put(3))
  have "fst (getCachedEmergencyData e2 k (elapse d ?w1)) =
          Fulfilled (map_option (\<lambda>r. (data r, timestamp r)) (store_get k (records ?w1)))"
    by (simp add: getCachedEmergencyData_works [OF prov2 open2 assms(4)] elapse_simps)
  also have "store_get k (records ?w1) = Some \<lparr>key = k, data = p, timestamp = clock w\<rparr>"
    using store_get_put [of "\<lparr>key = k, data = p, timestamp = clock w\<rparr>"] by (simp add: put(2))
  finally have get: "fst (getCachedEmergencyData e2 k (elapse d ?w1)) =
      Fulfilled (Some (p, clock w))"
    by simp
  have fulfilled: "fst (cacheEmergencyData e1 k p w) = Fulfilled ()"
    by (simp add: cacheEmergencyData_works [OF assms(1,2,3)])
  have "clock w \<le> clock (elapse d ?w1)"
    by (simp add: elapse_simps put(4))
  with get fulfilled show ?thesis
    by simp
qed

text \<open>
  The end-to-end scenario of the specification: the card is cached at time 1000 on a
  first visit and read back 250 ms later.
\<close>

theorem put_get_roundtrip_witness:
  "provisioned (initial 1000 :: string world) \<and>
   fst (openDB \<lparr>hasIndexedDB = True, openError = None, request = Succeeds\<rparr>
          (initial 1000 :: string world)) = Fulfilled Connection \<and>
   fst (getCachedEmergencyData \<lparr>hasIndexedDB = True, openError = None, request = Succeeds\<rparr>
          ''ice_card_ABC123''
          (elapse 250
            (snd (cacheEmergencyData \<lparr>hasIndexedDB = True, openError = None, request = Succeeds\<rparr>
                    ''ice_card_ABC123'' ''card'' (initial 1000))))) =
     Fulfilled (Some (''card'', 1000))"
  using put_get_roundtrip [of "initial 1000"
      "\<lparr>hasIndexedDB = True, openError = None, request = Succeeds\<rparr>"
      Connection "\<lparr>hasIndexedDB = True, openError = None, request = Succeeds\<rparr>"
      "''ice_card_ABC123''" "''card''" 250]
  by (simp add: provisioned_def initial_def openDB_def DB_VERSION_def)

subsection \<open>Formatting the age of an entry\<close>

lemma diffMins_less_1: "((a::int) div 60000 < 1) = (a < 60000)"
  by linarith

lemma diffMins_less_60: "((a::int) div 60000 < 60) = (a < 3600000)"
  by linarith

lemma diffHours_less_24: "((a::int) div 3600000 < 24) = (a < 86400000)"
  by linarith

lemma diffDays_less_7: "((a::int) div 86400000 < 7) = (a < 604800000)"
  by linarith

lemma String_one_digit:
  assumes "0 \<le> n" and "n < 10"
  shows "String n = [''0123456789'' ! nat n]"
proof -
  from assms have "nat n < 10" by linarith
  then have "decimal (nat n) = [digit (nat n)]"
    by (simp add: decimal.simps [of "nat n"])
  with assms show ?thesis
    by (simp add: String_def digit_def)
qed

lemma String_two_digits:
  assumes "10 \<le> n" and "n < 100"
  shows "String n = [''0123456789'' ! nat (n div 10), ''0123456789'' ! nat (n mod 10)]"
proof -
  have tens: "nat n div 10 = nat (n div 10)" and units: "nat n mod 10 = nat (n mod 10)"
    using assms by (simp_all add: nat_div_distrib nat_mod_distrib)
  have "nat n div 10 < 10" and "\<not> nat n < 10"
    using assms by linarith+
  then have "decimal (nat n) = [digit (nat n div 10), digit (nat n mod 10)]"
    by (simp add: decimal.simps [of "nat n"] decimal.simps [of "nat n div 10"])
  with assms show ?thesis
    by (simp add: String_def digit_def tens units)
qed

lemma String_below_100:
  "0 \<le> n \<Longrightarrow> n < 100 \<Longrightarrow>
   String n =
     (if n < 10 then [''0123456789'' ! nat n]
      else [''0123456789'' ! nat (n div 10), ''0123456789'' ! nat (n mod 10)])"
  by (simp add: String_one_digit String_two_digits)

lemma diffMins_range:
  "60000 \<le> (a::int) \<Longrightarrow> a < 3600000 \<Longrightarrow> 1 \<le> a div 60000 \<and> a div 60000 \<le> 59"
  by linarith

lemma diffHours_range:
  "3600000 \<le> (a::int) \<Longrightarrow> a < 86400000 \<Longrightarrow> 1 \<le> a div 3600000 \<and> a div 3600000 \<le> 23"
  by linarith

lemma diffDays_range:
  "86400000 \<le> (a::int) \<Longrightarrow> a < 604800000 \<Longrightarrow> 1 \<le> a div 86400000 \<and> a div 86400000 \<le> 6"
  by linarith

text \<open>
  C5: with \<open>elapsed = now - ts\<close> in milliseconds, \<open>formatCacheTimestamp\<close> returns
  \<open>Just now\<close> when \<open>elapsed\<close> is less than a minute; \<open>N minute(s) ago\<close> with \<open>N\<close> the
  floor of \<open>elapsed / 60000\<close> when it is less than 60 minutes; \<open>N hour(s) ago\<close> with \<open>N\<close>
  the floor of \<open>elapsed / 3600000\<close> when it is less than 24 hours; \<open>N day(s) ago\<close> with
  \<open>N\<close> the floor of \<open>elapsed / 86400000\<close> when it is less than 7 days; and the
  locale's calendar date otherwise. The unit is singular exactly when \<open>N = 1\<close>, and
  \<open>N\<close> is obtained by flooring, never by rounding. The text printed for \<open>N\<close> is given
  character by character: \<open>N\<close> lies between 1 and 59 (minutes), 23 (hours) or 6 (days),
  and is printed as its one decimal digit when it is below 10 and as its tens digit
  followed by its units digit otherwise. This holds for every \<open>ts\<close>, hence for every
  past one.
\<close>

theorem formatCacheTimestamp_buckets:
  "(now - ts < 60000 \<longrightarrow> formatCacheTimestamp f now ts = ''Just now'') \<and>
   (60000 \<le> now - ts \<and> now - ts < 3600000 \<longrightarrow>
      (let N = (now - ts) div 60000 in
         1 \<le> N \<and> N \<le> 59 \<and>
         formatCacheTimestamp f now ts =
           (if N < 10 then [''0123456789'' ! nat N]
            else [''0123456789'' ! nat (N div 10), ''0123456789'' ! nat (N mod 10)]) @
           (if N = 1 then '' minute ago'' else '' minutes ago''))) \<and>
   (3600000 \<le> now - ts \<and> now - ts < 86400000 \<longrightarrow>
      (let N = (now - ts) div 3600000 in
         1 \<le> N \<and> N \<le> 23 \<and>
         formatCacheTimestamp f now ts =
           (if N < 10 then [''0123456789'' ! nat N]
            else [''0123456789'' ! nat (N div 10), ''0123456789'' ! nat (N mod 10)]) @
           (if N = 1 then '' hour ago'' else '' hours ago''))) \<and>
   (86400000 \<le> now - ts \<and> now - ts < 604800000 \<longrightarrow>
      (let N = (now - ts) div 86400000 in
         1 \<le> N \<and> N \<le> 6 \<and>
         formatCacheTimestamp f now ts =
           [''0123456789'' ! nat N] @
           (if N = 1 then '' day ago'' else '' days ago''))) \<and>
   (604800000 \<le> now - ts \<longrightarrow> formatCacheTimestamp f now ts = f ts)"
proof (intro conjI impI)
  assume "now - ts < 60000"
  then show "formatCacheTimestamp f now ts = ''Just now''"
    by (simp add: formatCacheTimestamp_def Let_def diffMins_less_1)
next
  assume a: "60000 \<le> now - ts \<and> now - ts < 3600000"
  then have range: "1 \<le> (now - ts) div 60000" "(now - ts) div 60000 \<le> 59"
    using diffMins_range [of "now - ts"] by simp_all
  then have digits: "String ((now - ts) div 60000) =
      (if (now - ts) div 60000 < 10 then [''0123456789'' ! nat ((now - ts) div 60000)]
       else [''0123456789'' ! nat ((now - ts) div 60000 div 10),
             ''0123456789'' ! nat ((now - ts) div 60000 mod 10)])"
    by (intro String_below_100) simp_all
  from a have "formatCacheTimestamp f now ts =
      String ((now - ts) div 60000) @
      (if (now - ts) div 60000 = 1 then '' minute ago'' else '' minutes ago'')"
    by (simp add: formatCacheTimestamp_def Let_def diffMins_less_1 diffMins_less_60)
  with range digits
  show "let N = (now - ts) div 60000 in
         1 \<le> N \<and> N \<le> 59 \<and>
         formatCacheTimestamp f now ts =
           (if N < 10 then [''0123456789'' ! nat N]
            else [''0123456789'' ! nat (N div 10), ''0123456789'' ! nat (N mod 10)]) @
           (if N = 1 then '' minute ago'' else '' minutes ago'')"
    unfolding Let_def by simp
next
  assume a: "3600000 \<le> now - ts \<and> now - ts < 86400000"
  then have range: "1 \<le> (now - ts) div 3600000" "(now - ts) div 3600000 \<le> 23"
    using diffHours_range [of "now - ts"] by simp_all
  then have digits: "String ((now - ts) div 3600000) =
      (if (now - ts) div 3600000 < 10 then [''0123456789'' ! nat ((now - ts) div 3600000)]
       else [''0123456789'' ! nat ((now - ts) div 3600000 div 10),
             ''0123456789'' ! nat ((now - ts) div 3600000 mod 10)])"
    by (intro String_below_100) simp_all
  from a have "formatCacheTimestamp f now ts =
      String ((now - ts) div 3600000) @
      (if (now - ts) div 3600000 = 1 then '' hour ago'' else '' hours ago'')"
    by (simp add: formatCacheTimestamp_def Let_def diffMins_less_1 diffMins_less_60
        diffHours_less_24)
  with range digits
  show "let N = (now - ts) div 3600000 in
         1 \<le> N \<and> N \<le> 23 \<and>
         formatCacheTimestamp f now ts =
           (if N < 10 then [''0123456789'' ! nat N]
            else [''0123456789'' ! nat (N div 10), ''0123456789'' ! nat (N mod 10)]) @
           (if N = 1 then '' hour ago'' else '' hours ago'')"
    unfolding Let_def by simp
next
  assume a: "86400000 \<le> now - ts \<and> now - ts < 604800000"
  then have range: "1 \<le> (now - ts) div 86400000" "(now - ts) div 86400000 \<le> 6"
    using diffDays_range [of "now - ts"] by simp_all
  then have digits: "String ((now - ts) div 86400000) =
      [''0123456789'' ! nat ((now - ts) div 86400000)]"
    by (intro String_one_digit) simp_all
  from a have "formatCacheTimestamp f now ts =
      String ((now - ts) div 86400000) @
      (if (now - ts) div 86400000 = 1 then '' day ago'' else '' days ago'')"
    by (simp add: formatCacheTimestamp_def Let_def diffMins_less_1 diffMins_less_60
        diffHours_less_24 diffDays_less_7)
  with range digits
  show "let N = (now - ts) div 86400000 in
         1 \<le> N \<and> N \<le> 6 \<and>
         formatCacheTimestamp f now ts =
           [''0123456789'' ! nat N] @
           (if N = 1 then '' day ago'' else '' days ago'')"
    unfolding Let_def by simp
next
  assume "604800000 \<le> now - ts"
  then show "formatCacheTimestamp f now ts = f ts"
    by (simp add: formatCacheTimestamp_def Let_def diffMins_less_1 diffMins_less_60
        diffHours_less_24 diffDays_less_7)
qed

text \<open>
  The five examples of the specification (30 seconds, 90 seconds, which is one minute
  and not two, 2 hours, 3 days and 10 days before \<open>now\<close>), and the ends of each bucket
  with one-digit and two-digit counts: 10, 45 and 59 minutes, 1 and 23 hours, 1 and 6
  days.
\<close>

theorem formatCacheTimestamp_buckets_witness:
  "formatCacheTimestamp (\<lambda>t. ''1/1/2026'') 2000000000 (2000000000 - 30000) = ''Just now'' \<and>
   formatCacheTimestamp (\<lambda>t. ''1/1/2026'') 2000000000 (2000000000 - 90000) = ''1 minute ago'' \<and>
   formatCacheTimestamp (\<lambda>t. ''1/1/2026'') 2000000000 (2000000000 - 600000) = ''10 minutes ago'' \<and>
   formatCacheTimestamp (\<lambda>t. ''1/1/2026'') 2000000000 (2000000000 - 2700000) = ''45 minutes ago'' \<and>
   formatCacheTimestamp (\<lambda>t. ''1/1/2026'') 2000000000 (2000000000 - 3599999) = ''59 minutes ago'' \<and>
   formatCacheTimestamp (\<lambda>t. ''1/1/2026'') 2000000000 (2000000000 - 3600000) = ''1 hour ago'' \<and>
   formatCacheTimestamp (\<lambda>t. ''1/1/2026'') 2000000000 (2000000000 - 7200000) = ''2 hours ago'' \<and>
   formatCacheTimestamp (\<lambda>t. ''1/1/2026'') 2000000000 (2000000000 - 86399999) = ''23 hours ago'' \<and>
   formatCacheTimestamp (\<lambda>t. ''1/1/2026'') 2000000000 (2000000000 - 86400000) = ''1 day ago'' \<and>
   formatCacheTimestamp (\<lambda>t. ''1/1/2026'') 2000000000 (2000000000 - 259200000) = ''3 days ago'' \<and>
   formatCacheTimestamp (\<lambda>t. ''1/1/2026'') 2000000000 (2000000000 - 604799999) = ''6 days ago'' \<and>
   formatCacheTimestamp (\<lambda>t. ''1/1/2026'') 2000000000 (2000000000 - 864000000) = ''1/1/2026''"
  using
    formatCacheTimestamp_buckets [where now = 2000000000 and ts = "2000000000 - 30000" and f = "\<lambda>t. ''1/1/2026''"]
    formatCacheTimestamp_buckets [where now = 2000000000 and ts = "2000000000 - 90000" and f = "\<lambda>t. ''1/1/2026''"]
    formatCacheTimestamp_buckets [where now = 2000000000 and ts = "2000000000 - 600000" and f = "\<lambda>t. ''1/1/2026''"]
    formatCacheTimestamp_buckets [where now = 2000000000 and ts = "2000000000 - 2700000" and f = "\<lambda>t. ''1/1/2026''"]
    formatCacheTimestamp_buckets [where now = 2000000000 and ts = "2000000000 - 3599999" and f = "\<lambda>t. ''1/1/2026''"]
    formatCacheTimestamp_buckets [where now = 2000000000 and ts = "2000000000 - 3600000" and f = "\<lambda>t. ''1/1/2026''"]
    formatCacheTimestamp_buckets [where now = 2000000000 and ts = "2000000000 - 7200000" and f = "\<lambda>t. ''1/1/2026''"]
    formatCacheTimestamp_buckets [where now = 2000000000 and ts = "2000000000 - 86399999" and f = "\<lambda>t. ''1/1/2026''"]
    formatCacheTimestamp_buckets [where now = 2000000000 and ts = "2000000000 - 86400000" and f = "\<lambda>t. ''1/1/2026''"]
    formatCacheTimestamp_buckets [where now = 2000000000 and ts = "2000000000 - 259200000" and f = "\<lambda>t. ''1/1/2026''"]
    formatCacheTimestamp_buckets [where now = 2000000000 and ts = "2000000000 - 604799999" and f = "\<lambda>t. ''1/1/2026''"]
    formatCacheTimestamp_buckets [where now = 2000000000 and ts = "2000000000 - 864000000" and f = "\<lambda>t. ''1/1/2026''"]
  by (simp add: Let_def)

text \<open>
  C9: for a timestamp that is not in the past (\<open>now \<le> ts\<close>, a zero or negative elapsed
  time) \<open>formatCacheTimestamp\<close> still returns a value, namely \<open>Just now\<close>: the floored
  minute count is at most 0 and falls into the first bucket.
\<close>

theorem formatCacheTimestamp_not_past:
  "now \<le> ts \<Longrightarrow> formatCacheTimestamp f now ts = ''Just now''"
  unfolding formatCacheTimestamp_def Let_def
  by (simp add: diffMins_less_1)

theorem formatCacheTimestamp_not_past_witness:
  "(2000000000::int) \<le> 2000000000 \<and>
   formatCacheTimestamp (\<lambda>t. ''1/1/2026'') 2000000000 2000000000 = ''Just now'' \<and>
   (2000000000::int) \<le> 2000086400 \<and>
   formatCacheTimestamp (\<lambda>t. ''1/1/2026'') 2000000000 2000086400 = ''Just now''"
  using
    formatCacheTimestamp_not_past [of 2000000000 2000000000 "\<lambda>t. ''1/1/2026''"]
    formatCacheTimestamp_not_past [of 2000000000 2000086400 "\<lambda>t. ''1/1/2026''"]
  by simp

subsection \<open>Failures\<close>

text \<open>
  C6: when opening the store fails because the host has no IndexedDB (the first call
  of \<open>openDB\<close> rejects before any transaction starts), \<open>Put(k, p)\<close> and \<open>Delete(k)\<close>
  complete normally, \<open>Get(k)\<close> returns \<open>null\<close>, and nothing on disk changes. The same
  holds whenever \<open>openDB\<close> rejects, for whatever reason (the open request failed, or an
  earlier failure is reused), and whatever the store would do with a request.
\<close>

theorem open_failure_swallowed:
  "(dbPromise w = None \<and> \<not> hasIndexedDB e \<longrightarrow>
      fst (openDB e w) = Rejected (Error ''IndexedDB not available'') \<and>
      fst (cacheEmergencyData e k p w) = Fulfilled () \<and>
      fst (clearCachedEmergencyData e k w) = Fulfilled () \<and>
      fst (getCachedEmergencyData e k w) = Fulfilled None \<and>
      emergency (snd (cacheEmergencyData e k p w)) = emergency w \<and>
      emergency (snd (clearCachedEmergencyData e k w)) = emergency w \<and>
      emergency (snd (getCachedEmergencyData e k w)) = emergency w) \<and>
   (fst (openDB e w) = Rejected err \<longrightarrow>
      fst (cacheEmergencyData e k p w) = Fulfilled () \<and>
      fst (clearCachedEmergencyData e k w) = Fulfilled () \<and>
      fst (getCachedEmergencyData e k w) = Fulfilled None \<and>
      emergency (snd (cacheEmergencyData e k p w)) = emergency w \<and>
      emergency (snd (clearCachedEmergencyData e k w)) = emergency w \<and>
      emergency (snd (getCachedEmergencyData e k w)) = emergency w)"
proof -
  have swallowed:
    "fst (cacheEmergencyData e k p w) = Fulfilled () \<and>
     fst (clearCachedEmergencyData e k w) = Fulfilled () \<and>
     fst (getCachedEmergencyData e k w) = Fulfilled None \<and>
     emergency (snd (cacheEmergencyData e k p w)) = emergency w \<and>
     emergency (snd (clearCachedEmergencyData e k w)) = emergency w \<and>
     emergency (snd (getCachedEmergencyData e k w)) = emergency w"
    if rejected: "fst (openDB e w) = Rejected err'" for err'
    using openDB_Rejected_disk [OF rejected]
    by (simp add: cacheEmergencyData_open_fails [OF rejected]
        clearCachedEmergencyData_open_fails [OF rejected]
        getCachedEmergencyData_open_fails [OF rejected] console_error_simps)
  have unavailable: "fst (openDB e w) = Rejected (Error ''IndexedDB not available'')"
    if "dbPromise w = None" and "\<not> hasIndexedDB e"
    by (simp add: openDB_unavailable [OF that])
  from swallowed unavailable show ?thesis
    by blast
qed

theorem open_failure_swallowed_witness:
  "dbPromise (initial 1000 :: string world) = None \<and>
   \<not> hasIndexedDB \<lparr>hasIndexedDB = False, openError = None, request = Succeeds\<rparr> \<and>
   fst (cacheEmergencyData \<lparr>hasIndexedDB = False, openError = None, request = Succeeds\<rparr>
          ''ice_card_ABC123'' ''card'' (initial 1000)) = Fulfilled () \<and>
   fst (clearCachedEmergencyData \<lparr>hasIndexedDB = False, openError = None, request = Succeeds\<rparr>
          ''ice_card_ABC123'' (initial 1000 :: string world)) = Fulfilled () \<and>
   fst (getCachedEmergencyData \<lparr>hasIndexedDB = False, openError = None, request = Succeeds\<rparr>
          ''ice_card_ABC123'' (initial 1000 :: string world)) = Fulfilled None \<and>
   fst (openDB \<lparr>hasIndexedDB = True, openError = Some (DOMException ''UnknownError''),
                 request = Succeeds\<rparr> (initial 1000 :: string world)) =
     Rejected (DOMException ''UnknownError'') \<and>
   fst (getCachedEmergencyData
          \<lparr>hasIndexedDB = True, openError = Some (DOMException ''UnknownError''),
             request = Succeeds\<rparr>
          ''ice_card_ABC123'' (initial 1000 :: string world)) = Fulfilled None"
  using
    open_failure_swallowed [where w = "initial 1000 :: string world"
      and e = "\<lparr>hasIndexedDB = False, openError = None, request = Succeeds\<rparr>"
      and k = "''ice_card_ABC123''" and p = "''card''"
      and err = "Error ''IndexedDB not available''"]
    open_failure_swallowed [where w = "initial 1000 :: string world"
      and e = "\<lparr>hasIndexedDB = True, openError = Some (DOMException ''UnknownError''),
                 request = Succeeds\<rparr>"
      and k = "''ice_card_ABC123''" and p = "''card''"
      and err = "DOMException ''UnknownError''"]
  by (simp add: initial_def openDB_def)

text \<open>
  C1: the claim is that no failure inside \<open>Put\<close>, \<open>Delete\<close> or \<open>Get\<close> ever reaches the caller.
  The \<open>catch\<close> of each operation only sees a rejection of \<open>await openDB()\<close>. The
  promise of the transaction is returned from inside the \<open>try\<close> without \<open>await\<close>, so
  its rejection settles the promise that the caller holds. On a first visit where the
  store opens: a \<open>put\<close> request that fails with \<open>QuotaExceededError\<close> rejects
  \<open>cacheEmergencyData\<close>, a failing \<open>get\<close> request rejects \<open>getCachedEmergencyData\<close>
  instead of giving \<open>null\<close>, and a \<open>db.transaction\<close> that throws rejects
  \<open>clearCachedEmergencyData\<close>.
\<close>

theorem transaction_failure_reaches_caller:
  "fst (cacheEmergencyData
          \<lparr>hasIndexedDB = True, openError = None,
             request = Fails (DOMException ''QuotaExceededError'')\<rparr>
          ''ice_card_ABC123'' ''card'' (initial 1000)) =
     Rejected (DOMException ''QuotaExceededError'') \<and>
   fst (getCachedEmergencyData
          \<lparr>hasIndexedDB = True, openError = None,
             request = Fails (DOMException ''UnknownError'')\<rparr>
          ''ice_card_ABC123'' (initial 1000 :: string world)) =
     Rejected (DOMException ''UnknownError'') \<and>
   fst (clearCachedEmergencyData
          \<lparr>hasIndexedDB = True, openError = None,
             request = Throws (DOMException ''InvalidStateError'')\<rparr>
          ''ice_card_ABC123'' (initial 1000 :: string world)) =
     Rejected (DOMException ''InvalidStateError'')"
  by (simp add: cacheEmergencyData_def getCachedEmergencyData_def clearCachedEmergencyData_def
      openDB_def onupgradeneeded_def initial_def DB_VERSION_def)


subsection \<open>The memoized initialization\<close>

text \<open>
  C2: the claim is that a failed initialization is terminal for the call that triggered it only
  and does not make later calls fail. On the code it does: a first open request fails
  with \<open>UnknownError\<close>; on the next call the host has IndexedDB and the open request
  would succeed (as it does from a fresh module state), yet \<open>openDB\<close> returns the
  rejection it kept.
\<close>

theorem failed_open_poisons_later_calls:
  "fst (openDB \<lparr>hasIndexedDB = True, openError = None, request = Succeeds\<rparr>
          (snd (openDB
                  \<lparr>hasIndexedDB = True, openError = Some (DOMException ''UnknownError''),
                     request = Succeeds\<rparr>
                  (initial 1000 :: string world)))) =
     Rejected (DOMException ''UnknownError'') \<and>
   fst (openDB \<lparr>hasIndexedDB = True, openError = None, request = Succeeds\<rparr>
          (initial 1000 :: string world)) = Fulfilled Connection"
  by (simp add: openDB_def initial_def)


text \<open>
  C2 as amended: when store initialization fails, whether by the capability check or by
  the open request, the rejected result is kept in \<open>dbPromise\<close>. After any events
  \<open>evs\<close>, and whatever the host then offers (\<open>e'\<close>), \<open>openDB\<close> returns that same
  rejection without a new capability check or open request and leaves the state as it
  is; so the disk is never touched, \<open>Put\<close> and \<open>Delete\<close> return normally without
  writing, and \<open>Get\<close> returns \<open>null\<close>.
\<close>

theorem failed_open_memoized:
  assumes "fst (openDB e w) = Rejected err"
  shows "openDB e' (run evs (snd (openDB e w))) = (Rejected err, run evs (snd (openDB e w))) \<and>
         emergency (run evs (snd (openDB e w))) = emergency w \<and>
         fst (cacheEmergencyData e' k p (run evs (snd (openDB e w)))) = Fulfilled () \<and>
         fst (clearCachedEmergencyData e' k (run evs (snd (openDB e w)))) = Fulfilled () \<and>
         fst (getCachedEmergencyData e' k (run evs (snd (openDB e w)))) = Fulfilled None"
proof -
  let ?w = "run evs (snd (openDB e w))"
  have "dbPromise (snd (openDB e w)) = Some (Rejected err)"
    using assms by (simp add: openDB_dbPromise)
  from run_after_failed_open [OF this, of evs]
  have memo: "dbPromise ?w = Some (Rejected err)"
    and disk: "emergency ?w = emergency (snd (openDB e w))"
    by simp_all
  have again: "openDB e' ?w = (Rejected err, ?w)"
    by (simp add: openDB_memo [OF memo])
  then have rejected: "fst (openDB e' ?w) = Rejected err"
    by simp
  show ?thesis
    using again disk openDB_Rejected_disk [OF assms]
    by (simp add: cacheEmergencyData_open_fails [OF rejected]
        clearCachedEmergencyData_open_fails [OF rejected]
        getCachedEmergencyData_open_fails [OF rejected])
qed

theorem failed_open_memoized_witness:
  "fst (openDB \<lparr>hasIndexedDB = True, openError = Some (DOMException ''UnknownError''),
                 request = Succeeds\<rparr> (initial 1000 :: string world)) =
     Rejected (DOMException ''UnknownError'') \<and>
   fst (getCachedEmergencyData \<lparr>hasIndexedDB = True, openError = None, request = Succeeds\<rparr>
         ''ice_card_ABC123''
         (run [Tick 60000,
               Put \<lparr>hasIndexedDB = True, openError = None, request = Succeeds\<rparr>
                 ''ice_card_ABC123'' ''card'']
            (snd (openDB \<lparr>hasIndexedDB = True, openError = Some (DOMException ''UnknownError''),
                           request = Succeeds\<rparr> (initial 1000 :: string world))))) =
     Fulfilled None"
  using failed_open_memoized [of
      "\<lparr>hasIndexedDB = True, openError = Some (DOMException ''UnknownError''), request = Succeeds\<rparr>"
      "initial 1000 :: string world" "DOMException ''UnknownError''"
      "\<lparr>hasIndexedDB = True, openError = None, request = Succeeds\<rparr>"
      "[Tick 60000, Put \<lparr>hasIndexedDB = True, openError = None, request = Succeeds\<rparr>
                 ''ice_card_ABC123'' ''card'']" "''ice_card_ABC123''" "''card''"]
  by (simp add: openDB_def initial_def)

subsection \<open>Overwriting and deleting\<close>

text \<open>
  C4: in a sequential execution where the store opens and the requests succeed,
  \<open>Put(k, p1); Put(k, p2); Get(k)\<close> returns \<open>p2\<close> with the timestamp of the second
  write, and the entries stored under \<open>k\<close> are then exactly the one record of the second
  write: payload and timestamp are replaced together and nothing of the first write is
  left. Moreover keys stay unique: from a store in which no two records share a key,
  no sequence of events of any kind (successful or failing) leads to one in which two
  do, so at most one entry exists for any key \<open>k'\<close> at any time.
\<close>

theorem last_write_wins:
  "(provisioned w \<and> fst (openDB e1 w) = Fulfilled db \<and>
    request e1 = Succeeds \<and> request e2 = Succeeds \<and> request e3 = Succeeds \<longrightarrow>
      fst (getCachedEmergencyData e3 k
             (run [Put e1 k p1, Tick d1, Put e2 k p2, Tick d2] w)) =
        Fulfilled (Some (p2, clock w + int d1)) \<and>
      entries k (run [Put e1 k p1, Tick d1, Put e2 k p2, Tick d2] w) =
        [\<lparr>key = k, data = p2, timestamp = clock w + int d1\<rparr>]) \<and>
   (distinct (map key (records w)) \<longrightarrow>
      distinct (map key (records (run evs w))) \<and> length (entries k' (run evs w)) \<le> 1)"
proof (intro conjI impI)
  assume "distinct (map key (records w))"
  then show unique: "distinct (map key (records (run evs w)))"
    by (rule run_unique_keys)
  then show "length (entries k' (run evs w)) \<le> 1"
    by (simp add: entries_def unique_keys_entries)
next
  assume a: "provisioned w \<and> fst (openDB e1 w) = Fulfilled db \<and>
    request e1 = Succeeds \<and> request e2 = Succeeds \<and> request e3 = Succeeds"
  let ?w1 = "elapse d1 (snd (cacheEmergencyData e1 k p1 w))"
  let ?w2 = "snd (cacheEmergencyData e2 k p2 ?w1)"
  have run: "run [Put e1 k p1, Tick d1, Put e2 k p2, Tick d2] w = elapse d2 ?w2"
    by simp
  from a have put1: "provisioned ?w1" "dbPromise ?w1 = Some (Fulfilled db)"
    "clock ?w1 = clock w + int d1"
    by (simp_all add: elapse_simps Put_world)
  then have open2: "fst (openDB e2 ?w1) = Fulfilled db"
    by (simp add: openDB_memo)
  from a have req: "request e2 = Succeeds" "request e3 = Succeeds"
    by simp_all
  show "fst (getCachedEmergencyData e3 k
             (run [Put e1 k p1, Tick d1, Put e2 k p2, Tick d2] w)) =
        Fulfilled (Some (p2, clock w + int d1))"
    unfolding run
    using Get_after_Put [OF put1(1) open2 req, where k = k and p = p2 and d = d2] by (simp add: put1(3))
  have "records ?w2 = store_put \<lparr>key = k, data = p2, timestamp = clock ?w1\<rparr> (records ?w1)"
    by (rule Put_world(2) [OF put1(1) open2 req(1)])
  then have "entries k ?w2 = [\<lparr>key = k, data = p2, timestamp = clock ?w1\<rparr>]"
    using filter_store_put_same [of "\<lparr>key = k, data = p2, timestamp = clock ?w1\<rparr>" "records ?w1"]
    by (simp add: entries_def)
  then have "entries k (elapse d2 ?w2) = [\<lparr>key = k, data = p2, timestamp = clock w + int d1\<rparr>]"
    by (simp only: entries_def elapse_simps(6) put1(3))
  then show "entries k (run [Put e1 k p1, Tick d1, Put e2 k p2, Tick d2] w) =
        [\<lparr>key = k, data = p2, timestamp = clock w + int d1\<rparr>]"
    by (simp only: run)
qed

theorem last_write_wins_witness:
  "provisioned (initial 1000 :: string world) \<and>
   fst (getCachedEmergencyData \<lparr>hasIndexedDB = True, openError = None, request = Succeeds\<rparr>
          ''ice_card_ABC123''
          (run [Put \<lparr>hasIndexedDB = True, openError = None, request = Succeeds\<rparr>
                  ''ice_card_ABC123'' ''old card'',
                Tick 500,
                Put \<lparr>hasIndexedDB = True, openError = None, request = Succeeds\<rparr>
                  ''ice_card_ABC123'' ''new card'',
                Tick 20] (initial 1000))) =
     Fulfilled (Some (''new card'', 1500)) \<and>
   entries ''ice_card_ABC123''
     (run [Put \<lparr>hasIndexedDB = True, openError = None, request = Succeeds\<rparr>
             ''ice_card_ABC123'' ''old card'',
           Tick 500,
           Put \<lparr>hasIndexedDB = True, openError = None, request = Succeeds\<rparr>
             ''ice_card_ABC123'' ''new card'',
           Tick 20] (initial 1000)) =
     [\<lparr>key = ''ice_card_ABC123'', data = ''new card'', timestamp = 1500\<rparr>] \<and>
   distinct (map key (records (initial 1000 :: string world))) \<and>
   length (entries ''ice_card_ABC123''
     (run [Put \<lparr>hasIndexedDB = True, openError = None, request = Succeeds\<rparr>
             ''ice_card_ABC123'' ''old card'',
           Put \<lparr>hasIndexedDB = True, openError = None, request = Succeeds\<rparr>
             ''ice_card_XYZ789'' ''other card'',
           Put \<lparr>hasIndexedDB = True, openError = None, request = Succeeds\<rparr>
             ''ice_card_ABC123'' ''new card''] (initial 1000))) \<le> 1"
  using last_write_wins [where w = "initial 1000 :: string world"
      and ?e1.0 = "\<lparr>hasIndexedDB = True, openError = None, request = Succeeds\<rparr>"
      and ?e2.0 = "\<lparr>hasIndexedDB = True, openError = None, request = Succeeds\<rparr>"
      and ?e3.0 = "\<lparr>hasIndexedDB = True, openError = None, request = Succeeds\<rparr>"
      and db = Connection and k = "''ice_card_ABC123''" and k' = "''ice_card_ABC123''"
      and ?p1.0 = "''old card''" and ?p2.0 = "''new card''" and ?d1.0 = 500 and ?d2.0 = 20
      and evs = "[Put \<lparr>hasIndexedDB = True, openError = None, request = Succeeds\<rparr>
             ''ice_card_ABC123'' ''old card'',
           Put \<lparr>hasIndexedDB = True, openError = None, request = Succeeds\<rparr>
             ''ice_card_XYZ789'' ''other card'',
           Put \<lparr>hasIndexedDB = True, openError = None, request = Succeeds\<rparr>
             ''ice_card_ABC123'' ''new card'']"]
  by (simp add: provisioned_def initial_def openDB_def DB_VERSION_def records_def)


text \<open>
  C7: when the store opens and the delete request succeeds, \<open>Delete(k)\<close> completes
  without error; on a key with no entry it changes nothing (the state is the one that
  opening the store alone gives, and the records are as before); after it, \<open>Get(k)\<close>
  returns \<open>null\<close> after any events \<open>evs\<close> that do not \<open>Put\<close> the key \<open>k\<close>; and a later
  successful \<open>Put(k, p)\<close> makes \<open>Get(k)\<close> return \<open>p\<close> again.
\<close>

theorem delete_then_absent:
  assumes "provisioned w" and "fst (openDB e w) = Fulfilled db" and "request e = Succeeds"
  shows "fst (clearCachedEmergencyData e k w) = Fulfilled () \<and>
         (entries k w = [] \<longrightarrow>
            clearCachedEmergencyData e k w = (Fulfilled (), snd (openDB e w)) \<and>
            records (snd (clearCachedEmergencyData e k w)) = records w) \<and>
         ((\<forall>ev\<in>set evs. \<not> writes k ev) \<and> request e' = Succeeds \<longrightarrow>
            fst (getCachedEmergencyData e' k (run evs (snd (clearCachedEmergencyData e k w)))) =
              Fulfilled None) \<and>
         (request e' = Succeeds \<and> request e'' = Succeeds \<longrightarrow>
            fst (getCachedEmergencyData e' k
                   (snd (cacheEmergencyData e'' k p
                           (run evs (snd (clearCachedEmergencyData e k w)))))) =
              Fulfilled (Some (p, clock (run evs (snd (clearCachedEmergencyData e k w))))))"
proof -
  let ?w1 = "snd (clearCachedEmergencyData e k w)"
  let ?w2 = "run evs ?w1"
  note del = clearCachedEmergencyData_world [OF assms, of k]
  have fulfilled: "fst (clearCachedEmergencyData e k w) = Fulfilled ()"
    by (simp add: clearCachedEmergencyData_works [OF assms])
  have noop: "clearCachedEmergencyData e k w = (Fulfilled (), snd (openDB e w)) \<and>
      records ?w1 = records w" if "entries k w = []"
  proof -
    from that have same: "store_delete k (records w) = records w"
      by (simp add: entries_def store_delete_absent)
    have "(snd (openDB e w))\<lparr>emergency := Some (records w)\<rparr> = snd (openDB e w)"
      using openDB_has_store [OF assms(1,2)] by simp
    with same show ?thesis
      by (simp add: clearCachedEmergencyData_works [OF assms] openDB_records)
  qed
  have conn: "provisioned ?w2" "dbPromise ?w2 = Some (Fulfilled db)"
    by (simp_all add: run_provisioned run_dbPromise del)
  have gone: "entries k ?w1 = []"
    by (simp add: entries_def del(2) filter_store_delete_same)
  have absent: "fst (getCachedEmergencyData e' k ?w2) = Fulfilled None"
    if "\<forall>ev\<in>set evs. \<not> writes k ev" and "request e' = Succeeds"
  proof -
    from run_entries_subset [OF that(1), of ?w1] gone have "entries k ?w2 = []"
      by simp
    then have "store_get k (records ?w2) = None"
      by (simp add: entries_def store_get_None_iff)
    then show ?thesis
      by (simp add: getCachedEmergencyData_connected [OF conn that(2)])
  qed
  have rewritten: "fst (getCachedEmergencyData e' k (snd (cacheEmergencyData e'' k p ?w2))) =
      Fulfilled (Some (p, clock ?w2))"
    if "request e' = Succeeds" and "request e'' = Succeeds"
  proof -
    have "fst (openDB e'' ?w2) = Fulfilled db"
      by (simp add: openDB_memo conn(2))
    from Get_after_Put [OF conn(1) this that(2,1), where k = k and p = p and d = 0]
    show ?thesis by (simp add: elapse_def)
  qed
  from fulfilled noop absent rewritten show ?thesis
    by blast
qed

theorem delete_then_absent_witness:
  "provisioned (initial 1000 :: string world) \<and>
   entries ''ice_card_ABC123'' (initial 1000 :: string world) = [] \<and>
   clearCachedEmergencyData \<lparr>hasIndexedDB = True, openError = None, request = Succeeds\<rparr>
       ''ice_card_ABC123'' (initial 1000 :: string world) =
     (Fulfilled (),
      snd (openDB \<lparr>hasIndexedDB = True, openError = None, request = Succeeds\<rparr>
             (initial 1000))) \<and>
   provisioned
     (run [Put \<lparr>hasIndexedDB = True, openError = None, request = Succeeds\<rparr>
             ''ice_card_ABC123'' ''card''] (initial 1000)) \<and>
   fst (getCachedEmergencyData \<lparr>hasIndexedDB = True, openError = None, request = Succeeds\<rparr>
          ''ice_card_ABC123''
          (run [Tick 100,
                Put \<lparr>hasIndexedDB = True, openError = None, request = Succeeds\<rparr>
                  ''ice_card_XYZ789'' ''other card'',
                Delete \<lparr>hasIndexedDB = True, openError = None, request = Succeeds\<rparr>
                  ''ice_card_ABC123'']
             (snd (clearCachedEmergencyData
                     \<lparr>hasIndexedDB = True, openError = None, request = Succeeds\<rparr>
                     ''ice_card_ABC123''
                     (run [Put \<lparr>hasIndexedDB = True, openError = None, request = Succeeds\<rparr>
                             ''ice_card_ABC123'' ''card''] (initial 1000)))))) =
     Fulfilled None"
  using
    delete_then_absent [where w = "initial 1000 :: string world"
      and e = "\<lparr>hasIndexedDB = True, openError = None, request = Succeeds\<rparr>"
      and e' = "\<lparr>hasIndexedDB = True, openError = None, request = Succeeds\<rparr>"
      and e'' = "\<lparr>hasIndexedDB = True, openError = None, request = Succeeds\<rparr>"
      and db = Connection and k = "''ice_card_ABC123''" and evs = "[]" and p = "''card''"]
    delete_then_absent [where w = "run [Put \<lparr>hasIndexedDB = True, openError = None, request = Succeeds\<rparr>
             ''ice_card_ABC123'' ''card''] (initial 1000)"
      and e = "\<lparr>hasIndexedDB = True, openError = None, request = Succeeds\<rparr>"
      and e' = "\<lparr>hasIndexedDB = True, openError = None, request = Succeeds\<rparr>"
      and e'' = "\<lparr>hasIndexedDB = True, openError = None, request = Succeeds\<rparr>"
      and db = Connection and k = "''ice_card_ABC123''" and p = "''card''"
      and evs = "[Tick 100,
                Put \<lparr>hasIndexedDB = True, openError = None, request = Succeeds\<rparr>
                  ''ice_card_XYZ789'' ''other card'',
                Delete \<lparr>hasIndexedDB = True, openError = None, request = Succeeds\<rparr>
                  ''ice_card_ABC123'']"]
  by (simp add: provisioned_def initial_def openDB_def onupgradeneeded_def DB_VERSION_def
      records_def entries_def cacheEmergencyData_def)


subsection \<open>The timestamp of an entry\<close>

text \<open>
  C8: a successful \<open>Put(k, p)\<close> leaves under \<open>k\<close> the single record with payload \<open>p\<close>
  and \<open>capturedAt\<close> equal to the clock at the moment of the call, for every \<open>k\<close> and
  \<open>p\<close>: the operation has no timestamp argument and the value does not depend on what
  the caller passes. And no event modifies a timestamp or a payload in place: every
  record in the store after an event either was in the store before it, unchanged, or
  is the record that a \<open>Put\<close> of this event wrote, payload and current time together.
\<close>

theorem capturedAt_set_at_storage:
  "(provisioned w \<and> fst (openDB e w) = Fulfilled db \<and> request e = Succeeds \<longrightarrow>
      entries k (snd (cacheEmergencyData e k p w)) =
        [\<lparr>key = k, data = p, timestamp = clock w\<rparr>]) \<and>
   (r \<in> set (records (exec ev w)) \<longrightarrow>
      r \<in> set (records w) \<or>
      (\<exists>e' k' p'. ev = Put e' k' p' \<and> r = \<lparr>key = k', data = p', timestamp = clock w\<rparr>))"
proof (intro conjI impI)
  assume a: "provisioned w \<and> fst (openDB e w) = Fulfilled db \<and> request e = Succeeds"
  then have "records (snd (cacheEmergencyData e k p w)) =
      store_put \<lparr>key = k, data = p, timestamp = clock w\<rparr> (records w)"
    by (simp add: Put_world(2))
  then show "entries k (snd (cacheEmergencyData e k p w)) =
      [\<lparr>key = k, data = p, timestamp = clock w\<rparr>]"
    using filter_store_put_same [of "\<lparr>key = k, data = p, timestamp = clock w\<rparr>" "records w"]
    by (simp add: entries_def)
next
  assume r: "r \<in> set (records (exec ev w))"
  from exec_records [of ev w] consider
      (same) "records (exec ev w) = records w"
    | (put) e' k' d where "ev = Put e' k' d"
        "records (exec ev w) = store_put \<lparr>key = k', data = d, timestamp = clock w\<rparr> (records w)"
    | (delete) e' k' where "ev = Delete e' k'"
        "records (exec ev w) = store_delete k' (records w)"
    by blast
  then show "r \<in> set (records w) \<or>
      (\<exists>e' k' p'. ev = Put e' k' p' \<and> r = \<lparr>key = k', data = p', timestamp = clock w\<rparr>)"
  proof cases
    case same
    with r show ?thesis by simp
  next
    case put
    with r set_store_put [of "\<lparr>key = k', data = d, timestamp = clock w\<rparr>" "records w"]
    show ?thesis by auto
  next
    case delete
    with r set_store_delete [of k' "records w"] show ?thesis by auto
  qed
qed

theorem capturedAt_set_at_storage_witness:
  "provisioned (initial 1000 :: string world) \<and>
   entries ''ice_card_ABC123''
     (snd (cacheEmergencyData \<lparr>hasIndexedDB = True, openError = None, request = Succeeds\<rparr>
             ''ice_card_ABC123'' ''card'' (initial 1000))) =
     [\<lparr>key = ''ice_card_ABC123'', data = ''card'', timestamp = 1000\<rparr>] \<and>
   \<lparr>key = ''ice_card_ABC123'', data = ''card'', timestamp = 1000\<rparr> \<in>
     set (records
       (exec (Put \<lparr>hasIndexedDB = True, openError = None, request = Succeeds\<rparr>
                ''ice_card_XYZ789'' ''other card'')
          (run [Put \<lparr>hasIndexedDB = True, openError = None, request = Succeeds\<rparr>
                  ''ice_card_ABC123'' ''card'', Tick 500] (initial 1000)))) \<and>
   \<lparr>key = ''ice_card_ABC123'', data = ''card'', timestamp = 1000\<rparr> \<in>
     set (records
          (run [Put \<lparr>hasIndexedDB = True, openError = None, request = Succeeds\<rparr>
                  ''ice_card_ABC123'' ''card'', Tick 500] (initial 1000)))"
  using
    capturedAt_set_at_storage [where w = "initial 1000 :: string world"
      and e = "\<lparr>hasIndexedDB = True, openError = None, request = Succeeds\<rparr>"
      and db = Connection and k = "''ice_card_ABC123''" and p = "''card''"
      and ev = "Tick 0" and r = "\<lparr>key = ''ice_card_ABC123'', data = ''card'', timestamp = 1000\<rparr>"]
    capturedAt_set_at_storage [where
      w = "run [Put \<lparr>hasIndexedDB = True, openError = None, request = Succeeds\<rparr>
                  ''ice_card_ABC123'' ''card'', Tick 500] (initial 1000)"
      and e = "\<lparr>hasIndexedDB = True, openError = None, request = Succeeds\<rparr>"
      and db = Connection and k = "''ice_card_ABC123''" and p = "''card''"
      and ev = "Put \<lparr>hasIndexedDB = True, openError = None, request = Succeeds\<rparr>
                ''ice_card_XYZ789'' ''other card''"
      and r = "\<lparr>key = ''ice_card_ABC123'', data = ''card'', timestamp = 1000\<rparr>"]
  by (simp add: provisioned_def initial_def openDB_def onupgradeneeded_def DB_VERSION_def
      records_def entries_def cacheEmergencyData_def elapse_def store_put_def)

subsection \<open>Keys are opaque\<close>

text \<open>
  C10: the three operations do not validate the key, and the empty string is a key like
  any other. \<open>Put('', p)\<close> stores an entry that \<open>Get('')\<close> retrieves (when the store
  opens and the requests succeed). For every key \<open>k\<close>: running an operation with the
  key \<open>''\<close>, in the world where the stored keys \<open>''\<close> and \<open>k\<close> are exchanged, gives
  the same promise result as running it with \<open>k\<close>, and the same world up to the
  exchange. And in one and the same world \<open>Put\<close> and \<open>Delete\<close> settle with \<open>''\<close> as
  they do with \<open>k\<close>: no operation rejects the empty key.
\<close>

theorem empty_key_not_special:
  "(provisioned w \<and> fst (openDB e1 w) = Fulfilled db \<and>
    request e1 = Succeeds \<and> request e2 = Succeeds \<longrightarrow>
      fst (cacheEmergencyData e1 '''' p w) = Fulfilled () \<and>
      fst (getCachedEmergencyData e2 '''' (elapse d (snd (cacheEmergencyData e1 '''' p w)))) =
        Fulfilled (Some (p, clock w))) \<and>
   cacheEmergencyData e '''' p (rename (swap_keys '''' k) w) =
     (fst (cacheEmergencyData e k p w),
      rename (swap_keys '''' k) (snd (cacheEmergencyData e k p w))) \<and>
   getCachedEmergencyData e '''' (rename (swap_keys '''' k) w) =
     (fst (getCachedEmergencyData e k w),
      rename (swap_keys '''' k) (snd (getCachedEmergencyData e k w))) \<and>
   clearCachedEmergencyData e '''' (rename (swap_keys '''' k) w) =
     (fst (clearCachedEmergencyData e k w),
      rename (swap_keys '''' k) (snd (clearCachedEmergencyData e k w))) \<and>
   fst (cacheEmergencyData e '''' p w) = fst (cacheEmergencyData e k p w) \<and>
   fst (clearCachedEmergencyData e '''' w) = fst (clearCachedEmergencyData e k w)"
proof -
  have roundtrip: "fst (cacheEmergencyData e1 '''' p w) = Fulfilled () \<and>
      fst (getCachedEmergencyData e2 '''' (elapse d (snd (cacheEmergencyData e1 '''' p w)))) =
        Fulfilled (Some (p, clock w))"
    if "provisioned w" "fst (openDB e1 w) = Fulfilled db"
      "request e1 = Succeeds" "request e2 = Succeeds"
    using Get_after_Put [OF that, where k = "''''" and d = d and p = p]
    by (simp add: cacheEmergencyData_works [OF that(1,2,3)])
  have put: "cacheEmergencyData e '''' p (rename (swap_keys '''' k) w) =
     (fst (cacheEmergencyData e k p w),
      rename (swap_keys '''' k) (snd (cacheEmergencyData e k p w)))"
    using cacheEmergencyData_rename [OF inj_swap_keys [of "''''" k], where e = e
        and k = k and d = p and w = w]
    by (simp add: swap_keys_right)
  have get: "getCachedEmergencyData e '''' (rename (swap_keys '''' k) w) =
     (fst (getCachedEmergencyData e k w),
      rename (swap_keys '''' k) (snd (getCachedEmergencyData e k w)))"
    using getCachedEmergencyData_rename [OF inj_swap_keys [of "''''" k], where e = e
        and k = k and w = w]
    by (simp add: swap_keys_right)
  have delete: "clearCachedEmergencyData e '''' (rename (swap_keys '''' k) w) =
     (fst (clearCachedEmergencyData e k w),
      rename (swap_keys '''' k) (snd (clearCachedEmergencyData e k w)))"
    using clearCachedEmergencyData_rename [OF inj_swap_keys [of "''''" k], where e = e
        and k = k and w = w]
    by (simp add: swap_keys_right)
  from roundtrip put get delete
    cacheEmergencyData_outcome_key [where e = e and k = "''''" and d = p and w = w and k' = k]
    clearCachedEmergencyData_outcome_key [where e = e and k = "''''" and w = w and k' = k]
  show ?thesis
    by blast
qed

theorem empty_key_not_special_witness:
  "provisioned (initial 1000 :: string world) \<and>
   fst (getCachedEmergencyData \<lparr>hasIndexedDB = True, openError = None, request = Succeeds\<rparr>
          ''''
          (elapse 250
            (snd (cacheEmergencyData \<lparr>hasIndexedDB = True, openError = None, request = Succeeds\<rparr>
                    '''' ''card'' (initial 1000))))) =
     Fulfilled (Some (''card'', 1000)) \<and>
   fst (getCachedEmergencyData \<lparr>hasIndexedDB = True, openError = None, request = Succeeds\<rparr>
          ''''
          (rename (swap_keys '''' ''ice_card_ABC123'')
             (run [Put \<lparr>hasIndexedDB = True, openError = None, request = Succeeds\<rparr>
                     ''ice_card_ABC123'' ''card''] (initial 1000)))) =
     Fulfilled (Some (''card'', 1000))"
  using
    empty_key_not_special [where w = "initial 1000 :: string world"
      and ?e1.0 = "\<lparr>hasIndexedDB = True, openError = None, request = Succeeds\<rparr>"
      and ?e2.0 = "\<lparr>hasIndexedDB = True, openError = None, request = Succeeds\<rparr>"
      and e = "\<lparr>hasIndexedDB = True, openError = None, request = Succeeds\<rparr>"
      and db = Connection and p = "''card''" and d = 250 and k = "''ice_card_ABC123''"]
    empty_key_not_special [where w = "run [Put \<lparr>hasIndexedDB = True, openError = None, request = Succeeds\<rparr>
                     ''ice_card_ABC123'' ''card''] (initial 1000)"
      and ?e1.0 = "\<lparr>hasIndexedDB = True, openError = None, request = Succeeds\<rparr>"
      and ?e2.0 = "\<lparr>hasIndexedDB = True, openError = None, request = Succeeds\<rparr>"
      and e = "\<lparr>hasIndexedDB = True, openError = None, request = Succeeds\<rparr>"
      and db = Connection and p = "''card''" and d = 250 and k = "''ice_card_ABC123''"]
  by (simp add: provisioned_def initial_def openDB_def onupgradeneeded_def DB_VERSION_def
      cacheEmergencyData_def getCachedEmergencyData_def store_get_def store_put_def)

end
